theory Spec2Isabelle
  imports Complex_Main "HOL-Library.Multiset" "HOL-Library.Sublist" "HOL-Library.Log_Nat"
begin

section \<open>Data model (types.ts)\<close>

text \<open>
  \<^verbatim>\<open>export type TaskPriority = 'high' | 'medium' | 'low';\<close>
\<close>

datatype TaskPriority = High | Medium | Low

text \<open>
  \<^verbatim>\<open>export interface Task { id; text; completed; createdAt; priority; dueDate? }\<close>

  The fields \<open>id\<close> and \<open>text\<close> are called \<open>task_id\<close> and \<open>task_text\<close> here, the
  other fields keep their names. A JavaScript string is a sequence of UTF-16 code
  units; the model covers the strings whose code units lie in U+0000..U+00FF, one
  \<^typ>\<open>char\<close> per code unit. \<open>createdAt\<close> holds \<open>Date.now()\<close>, an integral number of
  milliseconds, modelled as \<^typ>\<open>int\<close>. The optional \<open>dueDate\<close> is \<open>None\<close> when the
  property is \<open>undefined\<close>.
\<close>

record Task =
  task_id :: string
  task_text :: string
  completed :: bool
  createdAt :: int
  priority :: TaskPriority
  dueDate :: "string option"

section \<open>Application state (the useState cells of App)\<close>

text \<open>
  The three notification texts of \<open>addTask\<close> are string literals in Arabic; each is
  one constructor: \<open>AdminEnabled\<close> is the literal set after \<open>setIsAdmin(true)\<close>,
  \<open>AdminDisabled\<close> the one after \<open>setIsAdmin(false)\<close>, \<open>DuplicateTask\<close> the one of
  the duplicate check.
\<close>

datatype Notice = AdminEnabled | AdminDisabled | DuplicateTask

record App =
  tasks :: "Task list"
  notification :: "Notice option"
  isAdmin :: bool

section \<open>String helpers of the runtime\<close>

text \<open>
  \<open>String.prototype.trim\<close> removes leading and trailing WhiteSpace and
  LineTerminator code units. Below U+0100 these are TAB, LF, VT, FF, CR, SPACE and
  NO-BREAK SPACE.
\<close>

definition isWhiteSpace :: "char \<Rightarrow> bool" where
  "isWhiteSpace c = ((of_char c :: nat) \<in> {9, 10, 11, 12, 13, 32, 160})"

definition trim :: "string \<Rightarrow> string" where
  "trim s = rev (dropWhile isWhiteSpace (rev (dropWhile isWhiteSpace s)))"

text \<open>
  \<open>String.prototype.toLowerCase\<close> maps every code unit to its Unicode lower case.
  Below U+0100 the upper-case letters are U+0041..U+005A, U+00C0..U+00D6 and
  U+00D8..U+00DE, each 32 below its lower-case letter.
\<close>

definition lowerChar :: "char \<Rightarrow> char" where
  "lowerChar c =
     (let n = (of_char c :: nat)
      in if (65 \<le> n \<and> n \<le> 90) \<or> (192 \<le> n \<and> n \<le> 214) \<or> (216 \<le> n \<and> n \<le> 222)
         then char_of (n + 32) else c)"

definition toLowerCase :: "string \<Rightarrow> string" where
  "toLowerCase s = map lowerChar s"

section \<open>Task store: addTask, toggleTask, deleteTask\<close>

text \<open>
  \<open>addTask\<close> reads \<open>crypto.randomUUID()\<close> and \<open>Date.now()\<close>; the model takes both
  values as the arguments \<open>uuid\<close> and \<open>now\<close>. An omitted \<open>dueDate\<close> argument is
  \<open>None\<close>; \<open>dueDate || undefined\<close> turns the empty string into \<open>undefined\<close>.
\<close>

definition addTask :: "string \<Rightarrow> int \<Rightarrow> string \<Rightarrow> TaskPriority \<Rightarrow> string option \<Rightarrow> App \<Rightarrow> App" where
  "addTask uuid now str prio due st =
     (let trimmedText = trim str in
      if trimmedText = [] then st
      else
        let commandText = toLowerCase trimmedText in
        if commandText = ''admin'' then
          st\<lparr>isAdmin := True, notification := Some AdminEnabled\<rparr>
        else if commandText = ''unadmin'' then
          st\<lparr>isAdmin := False, notification := Some AdminDisabled\<rparr>
        else if list_ex (\<lambda>task. toLowerCase (trim (task_text task)) = toLowerCase trimmedText)
                  (tasks st) then
          st\<lparr>notification := Some DuplicateTask\<rparr>
        else
          let newTask = \<lparr>task_id = uuid, task_text = trimmedText, completed = False,
                          createdAt = now, priority = prio,
                          dueDate = (case due of None \<Rightarrow> None
                                     | Some d \<Rightarrow> if d = [] then None else Some d)\<rparr>
          in st\<lparr>tasks := newTask # tasks st\<rparr>)"

definition toggleTask :: "string \<Rightarrow> App \<Rightarrow> App" where
  "toggleTask i st =
     st\<lparr>tasks := map (\<lambda>task. if task_id task = i
                               then task\<lparr>completed := \<not> completed task\<rparr> else task)
                     (tasks st)\<rparr>"

definition deleteTask :: "string \<Rightarrow> App \<Rightarrow> App" where
  "deleteTask i st = st\<lparr>tasks := filter (\<lambda>task. task_id task \<noteq> i) (tasks st)\<rparr>"

section \<open>Array.prototype.sort\<close>

text \<open>
  \<open>Array.prototype.sort\<close> is a stable sort: for a comparator that is a consistent
  total preorder its result is determined, so it is modelled by a stable insertion
  sort. The comparator returns a number; a result \<open>\<le> 0\<close> keeps the first argument in
  front.
\<close>

fun insertSorted :: "('a \<Rightarrow> 'a \<Rightarrow> int) \<Rightarrow> 'a \<Rightarrow> 'a list \<Rightarrow> 'a list" where
  "insertSorted cmp x [] = [x]"
| "insertSorted cmp x (y # ys) =
     (if cmp x y \<le> 0 then x # y # ys else y # insertSorted cmp x ys)"

definition arraySort :: "('a \<Rightarrow> 'a \<Rightarrow> int) \<Rightarrow> 'a list \<Rightarrow> 'a list" where
  "arraySort cmp xs = foldr (insertSorted cmp) xs []"

section \<open>Derived views: sortedTasks, todayTasks, overdueTasks\<close>

definition priorityOrder :: "TaskPriority \<Rightarrow> int" where
  "priorityOrder p = (case p of High \<Rightarrow> 1 | Medium \<Rightarrow> 2 | Low \<Rightarrow> 3)"

definition compareTasks :: "Task \<Rightarrow> Task \<Rightarrow> int" where
  "compareTasks a b =
     (let priorityDiff = priorityOrder (priority a) - priorityOrder (priority b)
      in if priorityDiff \<noteq> 0 then priorityDiff else createdAt b - createdAt a)"

definition sortedTasks :: "Task list \<Rightarrow> Task list" where
  "sortedTasks ts = arraySort compareTasks ts"

text \<open>
  \<open>new Date(s)\<close> parses a date string; which strings it accepts beyond the ISO
  formats depends on the engine, so the parser is the argument \<open>newDate\<close>: it returns
  the time value in milliseconds, or \<open>None\<close> for an Invalid Date (whose time value
  is NaN, for which every comparison is false). \<open>currentTime\<close> is the time value of
  a valid Date.
\<close>

definition isOverdue :: "(string \<Rightarrow> int option) \<Rightarrow> int \<Rightarrow> Task \<Rightarrow> bool" where
  "isOverdue newDate currentTime task =
     (\<not> completed task \<and>
      (case dueDate task of
         None \<Rightarrow> False
       | Some d \<Rightarrow> d \<noteq> [] \<and>
           (case newDate d of None \<Rightarrow> False | Some ms \<Rightarrow> ms < currentTime)))"

text \<open>The \<open>forEach\<close> loop pushing each task on one of the two lists.\<close>

fun partitionLoop ::
  "(Task \<Rightarrow> bool) \<Rightarrow> Task list \<Rightarrow> Task list \<times> Task list \<Rightarrow> Task list \<times> Task list" where
  "partitionLoop ov [] (todayTasksList, overdueTasksList) =
     (todayTasksList, overdueTasksList)"
| "partitionLoop ov (task # rest) (todayTasksList, overdueTasksList) =
     (if ov task
      then partitionLoop ov rest (todayTasksList, overdueTasksList @ [task])
      else partitionLoop ov rest (todayTasksList @ [task], overdueTasksList))"

definition getTime :: "(string \<Rightarrow> int option) \<Rightarrow> Task \<Rightarrow> int option" where
  "getTime newDate task = (case dueDate task of None \<Rightarrow> None | Some d \<Rightarrow> newDate d)"

text \<open>A comparator result NaN counts as 0 in \<open>Array.prototype.sort\<close>.\<close>

definition compareOverdue :: "(string \<Rightarrow> int option) \<Rightarrow> Task \<Rightarrow> Task \<Rightarrow> int" where
  "compareOverdue newDate a b =
     (let priorityDiff = priorityOrder (priority a) - priorityOrder (priority b)
      in if priorityDiff \<noteq> 0 then priorityDiff
         else (case (getTime newDate a, getTime newDate b) of
                 (Some x, Some y) \<Rightarrow> x - y
               | _ \<Rightarrow> 0))"

definition partitionTasks ::
  "(string \<Rightarrow> int option) \<Rightarrow> int \<Rightarrow> Task list \<Rightarrow> Task list \<times> Task list" where
  "partitionTasks newDate currentTime ts =
     (case partitionLoop (isOverdue newDate currentTime) (sortedTasks ts) ([], []) of
        (todayTasksList, overdueTasksList) \<Rightarrow>
          (todayTasksList, arraySort (compareOverdue newDate) overdueTasksList))"

definition todayTasks :: "(string \<Rightarrow> int option) \<Rightarrow> int \<Rightarrow> Task list \<Rightarrow> Task list" where
  "todayTasks newDate currentTime ts = fst (partitionTasks newDate currentTime ts)"

definition overdueTasks :: "(string \<Rightarrow> int option) \<Rightarrow> int \<Rightarrow> Task list \<Rightarrow> Task list" where
  "overdueTasks newDate currentTime ts = snd (partitionTasks newDate currentTime ts)"

section \<open>Numbers: IEEE 754 binary64\<close>

text \<open>
  A JavaScript number is a binary64 float. Finite numbers are modelled by the
  rationals they denote, and every arithmetic operation rounds its exact result to
  the nearest binary64 value, ties to the even significand. \<open>exponent x\<close> is the
  binary exponent of a positive \<open>x\<close>, the integer \<open>e\<close> with \<open>2^e \<le> x < 2^(e+1)\<close>; the
  significand has 53 bits, so the values with that exponent are the multiples of
  \<open>2^(e - 52)\<close>. Overflow and underflow are left out: the operands below lie
  between \<open>2^(-32)\<close> and \<open>100\<close>, far inside the normal range. The code divides
  by the length of a non-empty array only, so no division by zero occurs.
\<close>

definition exponent :: "rat \<Rightarrow> int" where
  "exponent x = (if 1 \<le> x then bitlen \<lfloor>x\<rfloor> - 1 else - bitlen (\<lceil>1 / x\<rceil> - 1))"

definition roundTiesToEven :: "rat \<Rightarrow> int" where
  "roundTiesToEven x =
     (let f = \<lfloor>x\<rfloor>; d = x - of_int f
      in if d < 1 / 2 then f else if 1 / 2 < d then f + 1
         else if even f then f else f + 1)"

definition toBinary64 :: "rat \<Rightarrow> rat" where
  "toBinary64 x =
     (if x = 0 then 0
      else let ulp = power_int 2 (exponent \<bar>x\<bar> - 52)
           in sgn x * of_int (roundTiesToEven (\<bar>x\<bar> / ulp)) * ulp)"

definition num_div :: "rat \<Rightarrow> rat \<Rightarrow> rat" where
  "num_div a b = toBinary64 (a / b)"

definition num_mul :: "rat \<Rightarrow> rat \<Rightarrow> rat" where
  "num_mul a b = toBinary64 (a * b)"

text \<open>
  \<open>Math.round\<close> returns the integer closest to its argument, the larger one of two
  equally close integers.
\<close>

definition Math_round :: "rat \<Rightarrow> int" where
  "Math_round x = \<lfloor>x + 1 / 2\<rfloor>"

section \<open>Productivity percentage\<close>

definition productivityPercentage :: "(string \<Rightarrow> int option) \<Rightarrow> int \<Rightarrow> Task list \<Rightarrow> int" where
  "productivityPercentage newDate currentTime ts =
     (let allTasks = todayTasks newDate currentTime ts @ overdueTasks newDate currentTime ts
      in if length allTasks = 0 then 100
         else
           let completedTasks = length (filter completed (todayTasks newDate currentTime ts))
           in Math_round (num_mul (num_div (of_nat completedTasks) (of_nat (length allTasks))) 100))"

section \<open>Loading the saved tasks\<close>

text \<open>
  The initialiser of the \<open>tasks\<close> state. \<open>getItem\<close> is the outcome of
  \<open>localStorage.getItem('tasks')\<close>: \<open>Inl e\<close> when the call throws \<open>e\<close>, \<open>Inr None\<close> for
  \<open>null\<close>, \<open>Inr (Some s)\<close> for a stored string. \<open>JSON_parse\<close> is the runtime's
  \<open>JSON.parse\<close>, \<open>Inl e\<close> when it throws \<open>e\<close>; the code takes what it returns as a
  \<open>Task[]\<close>. \<open>loadTasksTry\<close> is the body of the \<open>try\<close> block, \<open>loadTasks\<close> the whole
  initialiser: it returns the initial tasks and the errors written with
  \<open>console.error\<close>.
\<close>

definition loadTasksTry ::
  "'e + string option \<Rightarrow> (string \<Rightarrow> 'e + Task list) \<Rightarrow> 'e + Task list" where
  "loadTasksTry getItem JSON_parse =
     (case getItem of
        Inl e \<Rightarrow> Inl e
      | Inr None \<Rightarrow> Inr []
      | Inr (Some savedTasks) \<Rightarrow> if savedTasks = [] then Inr [] else JSON_parse savedTasks)"

definition loadTasks ::
  "'e + string option \<Rightarrow> (string \<Rightarrow> 'e + Task list) \<Rightarrow> Task list \<times> 'e list" where
  "loadTasks getItem JSON_parse =
     (case loadTasksTry getItem JSON_parse of
        Inl error \<Rightarrow> ([], [error])
      | Inr loaded \<Rightarrow> (loaded, []))"

section \<open>Example data\<close>

text \<open>
  Four tasks of priorities low, high, medium, high, created at increasing times;
  \<open>exRent\<close> and \<open>exCall\<close> are due on 2024-01-15 and \<open>exCall\<close> is completed.
  \<open>exDate\<close> parses that one date (midnight UTC, in milliseconds) and \<open>exNow\<close> is one
  day later.
\<close>

abbreviation exMilk :: Task where
  "exMilk \<equiv> \<lparr>task_id = ''a'', task_text = ''milk'', completed = False, createdAt = 1,
     priority = Low, dueDate = None\<rparr>"

abbreviation exRent :: Task where
  "exRent \<equiv> \<lparr>task_id = ''b'', task_text = ''rent'', completed = False, createdAt = 2,
     priority = High, dueDate = Some ''2024-01-15''\<rparr>"

abbreviation exCall :: Task where
  "exCall \<equiv> \<lparr>task_id = ''c'', task_text = ''call'', completed = True, createdAt = 3,
     priority = Medium, dueDate = Some ''2024-01-15''\<rparr>"

abbreviation exGym :: Task where
  "exGym \<equiv> \<lparr>task_id = ''d'', task_text = ''gym'', completed = False, createdAt = 4,
     priority = High, dueDate = None\<rparr>"

abbreviation exApp :: App where
  "exApp \<equiv> \<lparr>tasks = [exMilk, exRent, exCall, exGym], notification = None, isAdmin = False\<rparr>"

abbreviation exDate :: "string \<Rightarrow> int option" where
  "exDate \<equiv> (\<lambda>s. if s = ''2024-01-15'' then Some 1705276800000 else None)"

abbreviation exNow :: int where
  "exNow \<equiv> 1705363200000"

text \<open>
  Forty tasks without due date, the first twenty-three of them completed.
\<close>

abbreviation exForty :: "Task list" where
  "exForty \<equiv> map (\<lambda>k. \<lparr>task_id = replicate (Suc k) (CHR ''i''),
       task_text = replicate (Suc k) (CHR ''t''), completed = (k < 23), createdAt = int k,
       priority = Low, dueDate = None\<rparr>) [0..<40]"

section \<open>Toggle and delete\<close>

lemma tasks_toggleTask:
  "tasks (toggleTask i st) =
     map (\<lambda>task. if task_id task = i then task\<lparr>completed := \<not> completed task\<rparr> else task)
       (tasks st)"
  by (simp add: toggleTask_def)

lemma toggleTask_twice_id: "toggleTask i (toggleTask i st) = st"
proof -
  have "map ((\<lambda>task. if task_id task = i then task\<lparr>completed := \<not> completed task\<rparr> else task) \<circ>
             (\<lambda>task. if task_id task = i then task\<lparr>completed := \<not> completed task\<rparr> else task))
          (tasks st) = tasks st"
    by (rule map_idI) simp
  then show ?thesis
    by (simp add: toggleTask_def)
qed

lemma toggleTask_absent:
  assumes "i \<notin> task_id ` set (tasks st)"
  shows "toggleTask i st = st"
proof -
  have "map (\<lambda>task. if task_id task = i then task\<lparr>completed := \<not> completed task\<rparr> else task)
          (tasks st) = tasks st"
    using assms by (intro map_idI) auto
  then show ?thesis
    by (simp add: toggleTask_def)
qed

text \<open>
  C6. Toggling the same id twice gives back the state it started from, so every
  task has its original completion flag; one toggle keeps the number of tasks; a
  toggle of an id that no task has changes nothing.
\<close>

theorem toggleTask_involution:
  "toggleTask i (toggleTask i st) = st \<and>
   map completed (tasks (toggleTask i (toggleTask i st))) = map completed (tasks st) \<and>
   length (tasks (toggleTask i st)) = length (tasks st) \<and>
   (i \<notin> task_id ` set (tasks st) \<longrightarrow> toggleTask i st = st)"
  by (simp add: toggleTask_twice_id toggleTask_absent tasks_toggleTask)

theorem toggleTask_involution_witness:
  "''zz'' \<notin> task_id ` set (tasks exApp) \<and> toggleTask ''zz'' exApp = exApp \<and>
   toggleTask ''b'' (toggleTask ''b'' exApp) = exApp \<and>
   map completed (tasks (toggleTask ''b'' exApp)) = [False, True, True, False] \<and>
   length (tasks (toggleTask ''b'' exApp)) = 4"
  using toggleTask_involution [of "''zz''" exApp] toggleTask_involution [of "''b''" exApp]
  by (simp add: tasks_toggleTask)

text \<open>
  C9. A toggle keeps the length and the positions of the collection; at every
  position the id, text, creation time, priority and due date are those of the old
  task, and a task with another id is the old task itself; the notification and
  the admin flag are untouched. A delete leaves a subsequence of the old
  collection, made of exactly the tasks with another id, and touches nothing else
  of the state.
\<close>

theorem toggleTask_deleteTask_frame:
  "list_all2
     (\<lambda>old new. task_id new = task_id old \<and> task_text new = task_text old \<and>
        createdAt new = createdAt old \<and> priority new = priority old \<and>
        dueDate new = dueDate old \<and>
        completed new = (if task_id old = i then \<not> completed old else completed old) \<and>
        (task_id old = i \<or> new = old))
     (tasks st) (tasks (toggleTask i st)) \<and>
   notification (toggleTask i st) = notification st \<and>
   isAdmin (toggleTask i st) = isAdmin st \<and>
   subseq (tasks (deleteTask j st)) (tasks st) \<and>
   mset (tasks (deleteTask j st)) = filter_mset (\<lambda>task. task_id task \<noteq> j) (mset (tasks st)) \<and>
   notification (deleteTask j st) = notification st \<and>
   isAdmin (deleteTask j st) = isAdmin st"
proof -
  have "list_all2
     (\<lambda>old new. task_id new = task_id old \<and> task_text new = task_text old \<and>
        createdAt new = createdAt old \<and> priority new = priority old \<and>
        dueDate new = dueDate old \<and>
        completed new = (if task_id old = i then \<not> completed old else completed old) \<and>
        (task_id old = i \<or> new = old))
     (tasks st) (tasks (toggleTask i st))"
    by (simp add: tasks_toggleTask list_all2_map2 list_all2_same)
  moreover have "subseq (tasks (deleteTask j st)) (tasks st)"
    by (simp add: deleteTask_def)
  ultimately show ?thesis
    by (simp add: toggleTask_def deleteTask_def)
qed

theorem toggleTask_deleteTask_frame_witness:
  "tasks (toggleTask ''b'' exApp) = [exMilk, exRent\<lparr>completed := True\<rparr>, exCall, exGym] \<and>
   tasks (deleteTask ''a'' exApp) = [exRent, exCall, exGym] \<and>
   subseq (tasks (deleteTask ''a'' exApp)) (tasks exApp)"
  using toggleTask_deleteTask_frame [of "''b''" exApp "''a''"]
  by (simp add: toggleTask_def deleteTask_def)

section \<open>Reserved commands of addTask\<close>

lemma lowerChar_small_letter:
  assumes "97 \<le> (of_char l :: nat)" "(of_char l :: nat) \<le> 122"
    and "c = l \<or> of_char c + 32 = (of_char l :: nat)"
  shows "lowerChar c = l"
proof (cases "c = l")
  case True
  with assms(1,2) show ?thesis
    by (simp add: lowerChar_def)
next
  case False
  with assms(3) have eq: "of_char c + 32 = (of_char l :: nat)"
    by simp
  with assms(1,2) have "65 \<le> (of_char c :: nat)" "(of_char c :: nat) \<le> 90"
    by linarith+
  then have "lowerChar c = char_of (of_char c + 32 :: nat)"
    by (simp add: lowerChar_def)
  also have "\<dots> = l"
    by (simp add: eq)
  finally show ?thesis .
qed

lemma toLowerCase_any_case:
  assumes "list_all2 (\<lambda>c l. c = l \<or> of_char c + 32 = (of_char l :: nat)) s w"
    and "\<forall>l \<in> set w. 97 \<le> (of_char l :: nat) \<and> (of_char l :: nat) \<le> 122"
  shows "toLowerCase s = w"
  using assms
  by (induction s w rule: list_all2_induct) (simp_all add: toLowerCase_def lowerChar_small_letter)

lemma addTask_admin:
  assumes "toLowerCase (trim str) = ''admin''"
  shows "addTask uuid now str prio due st = st\<lparr>isAdmin := True, notification := Some AdminEnabled\<rparr>"
proof -
  from assms have "trim str \<noteq> []"
    by (auto simp: toLowerCase_def)
  with assms show ?thesis
    by (simp add: addTask_def)
qed

lemma addTask_unadmin:
  assumes "toLowerCase (trim str) = ''unadmin''"
  shows "addTask uuid now str prio due st = st\<lparr>isAdmin := False, notification := Some AdminDisabled\<rparr>"
proof -
  from assms have "trim str \<noteq> []"
    by (auto simp: toLowerCase_def)
  with assms show ?thesis
    by (simp add: addTask_def)
qed

text \<open>
  C5. When the trimmed input spells \<open>admin\<close>, each letter in either case, \<open>addTask\<close>
  sets the admin flag and a notification and leaves the tasks alone; when it spells
  \<open>unadmin\<close> it clears the flag, sets a notification and leaves the tasks alone.
\<close>

theorem addTask_reserved_commands:
  "(list_all2 (\<lambda>c l. c = l \<or> of_char c + 32 = (of_char l :: nat)) (trim str) ''admin'' \<longrightarrow>
      addTask uuid now str prio due st = st\<lparr>isAdmin := True, notification := Some AdminEnabled\<rparr> \<and>
      isAdmin (addTask uuid now str prio due st) \<and>
      notification (addTask uuid now str prio due st) \<noteq> None \<and>
      tasks (addTask uuid now str prio due st) = tasks st) \<and>
   (list_all2 (\<lambda>c l. c = l \<or> of_char c + 32 = (of_char l :: nat)) (trim str) ''unadmin'' \<longrightarrow>
      addTask uuid now str prio due st = st\<lparr>isAdmin := False, notification := Some AdminDisabled\<rparr> \<and>
      \<not> isAdmin (addTask uuid now str prio due st) \<and>
      notification (addTask uuid now str prio due st) \<noteq> None \<and>
      tasks (addTask uuid now str prio due st) = tasks st)"
proof (intro conjI impI)
  assume a: "list_all2 (\<lambda>c l. c = l \<or> of_char c + 32 = (of_char l :: nat)) (trim str) ''admin''"
  have "toLowerCase (trim str) = ''admin''"
    by (rule toLowerCase_any_case [OF a]) simp
  then have eq: "addTask uuid now str prio due st = st\<lparr>isAdmin := True, notification := Some AdminEnabled\<rparr>"
    by (rule addTask_admin)
  show "addTask uuid now str prio due st = st\<lparr>isAdmin := True, notification := Some AdminEnabled\<rparr>"
    by (rule eq)
  show "isAdmin (addTask uuid now str prio due st)"
    by (simp add: eq)
  show "notification (addTask uuid now str prio due st) \<noteq> None"
    by (simp add: eq)
  show "tasks (addTask uuid now str prio due st) = tasks st"
    by (simp add: eq)
next
  assume a: "list_all2 (\<lambda>c l. c = l \<or> of_char c + 32 = (of_char l :: nat)) (trim str) ''unadmin''"
  have "toLowerCase (trim str) = ''unadmin''"
    by (rule toLowerCase_any_case [OF a]) simp
  then have eq: "addTask uuid now str prio due st = st\<lparr>isAdmin := False, notification := Some AdminDisabled\<rparr>"
    by (rule addTask_unadmin)
  show "addTask uuid now str prio due st = st\<lparr>isAdmin := False, notification := Some AdminDisabled\<rparr>"
    by (rule eq)
  show "\<not> isAdmin (addTask uuid now str prio due st)"
    by (simp add: eq)
  show "notification (addTask uuid now str prio due st) \<noteq> None"
    by (simp add: eq)
  show "tasks (addTask uuid now str prio due st) = tasks st"
    by (simp add: eq)
qed

lemma trim_ex1: "trim [CHR 0x20, CHR ''A'', CHR ''d'', CHR ''M'', CHR ''i'', CHR ''N'', CHR 0x09, CHR 0xA0] = ''AdMiN''"
  by code_simp

lemma trim_ex2: "trim ''UnAdmin'' = ''UnAdmin''"
  by code_simp

theorem addTask_reserved_commands_witness:
  "list_all2 (\<lambda>c l. c = l \<or> of_char c + 32 = (of_char l :: nat))
     (trim [CHR 0x20, CHR ''A'', CHR ''d'', CHR ''M'', CHR ''i'', CHR ''N'', CHR 0x09, CHR 0xA0]) ''admin'' \<and>
   addTask ''u1'' 5 [CHR 0x20, CHR ''A'', CHR ''d'', CHR ''M'', CHR ''i'', CHR ''N'', CHR 0x09, CHR 0xA0] Low None exApp =
     exApp\<lparr>isAdmin := True, notification := Some AdminEnabled\<rparr> \<and>
   list_all2 (\<lambda>c l. c = l \<or> of_char c + 32 = (of_char l :: nat)) (trim ''UnAdmin'') ''unadmin'' \<and>
   addTask ''u2'' 6 ''UnAdmin'' High (Some ''2024-01-15'') (exApp\<lparr>isAdmin := True\<rparr>) =
     exApp\<lparr>isAdmin := False, notification := Some AdminDisabled\<rparr>"
  using addTask_reserved_commands [of "[CHR 0x20, CHR ''A'', CHR ''d'', CHR ''M'', CHR ''i'', CHR ''N'', CHR 0x09, CHR 0xA0]" "''u1''" 5 Low None exApp]
    addTask_reserved_commands [of "''UnAdmin''" "''u2''" 6 High "Some ''2024-01-15''" "exApp\<lparr>isAdmin := True\<rparr>"]
  by (simp add: trim_ex1 trim_ex2)

section \<open>Duplicate check of addTask\<close>

lemma toLowerCase_Nil_iff: "toLowerCase s = [] \<longleftrightarrow> s = []"
  by (simp add: toLowerCase_def)

lemma addTask_duplicate:
  assumes "trim str \<noteq> []"
    and "toLowerCase (trim str) \<noteq> ''admin''" and "toLowerCase (trim str) \<noteq> ''unadmin''"
    and "\<exists>task \<in> set (tasks st). toLowerCase (trim (task_text task)) = toLowerCase (trim str)"
  shows "addTask uuid now str prio due st = st\<lparr>notification := Some DuplicateTask\<rparr>"
  using assms by (simp add: addTask_def list_ex_iff)

lemma addTask_keeps_tasks_on_duplicate:
  assumes "\<exists>task \<in> set (tasks st). toLowerCase (trim (task_text task)) = toLowerCase (trim str)"
  shows "tasks (addTask uuid now str prio due st) = tasks st"
  using assms by (simp add: addTask_def list_ex_iff Let_def)

lemma addTask_notifies_nonblank_duplicate:
  assumes "trim str \<noteq> []"
    and "\<exists>task \<in> set (tasks st). toLowerCase (trim (task_text task)) = toLowerCase (trim str)"
  shows "notification (addTask uuid now str prio due st) \<noteq> None"
  using assms by (simp add: addTask_def list_ex_iff Let_def)

text \<open>
  The text of a task is not blank (data model: text is non-empty and trimmed).
  The empty collection has this property and the three operations of the store
  keep it: \<open>addTask\<close> stores the trimmed input, which it has checked to be
  non-empty, and trimming a trimmed string changes nothing.
\<close>

lemma dropWhile_rev_trim: "dropWhile isWhiteSpace (rev (trim s)) = rev (trim s)"
  by (simp add: trim_def)

lemma dropWhile_trim: "dropWhile isWhiteSpace (trim s) = trim s"
proof (cases "trim s = []")
  case True
  then show ?thesis by simp
next
  case False
  let ?t = "dropWhile isWhiteSpace s"
  let ?u = "dropWhile isWhiteSpace (rev ?t)"
  from False have u: "?u \<noteq> []"
    by (simp add: trim_def)
  have t: "?t \<noteq> []"
  proof
    assume "?t = []"
    then have "?u = []"
      by (simp only: rev.simps dropWhile.simps)
    with u show False
      by simp
  qed
  have "rev ?t = takeWhile isWhiteSpace (rev ?t) @ ?u"
    by simp
  then have "last (rev ?t) = last ?u"
    using u by (metis last_appendR)
  then have "hd (trim s) = hd ?t"
    using t u by (simp add: trim_def hd_rev last_rev)
  moreover have "\<not> isWhiteSpace (hd ?t)"
    using t by (rule hd_dropWhile)
  ultimately have "\<not> isWhiteSpace (hd (trim s))"
    by simp
  with False show ?thesis
    by (cases "trim s") simp_all
qed

lemma trim_idem: "trim (trim s) = trim s"
proof -
  have "trim (trim s) = rev (dropWhile isWhiteSpace (rev (trim s)))"
    by (simp only: trim_def [of "trim s"] dropWhile_trim)
  also have "\<dots> = trim s"
    by (simp only: dropWhile_rev_trim rev_rev_ident)
  finally show ?thesis .
qed

lemma addTask_keeps_nonblank:
  assumes "\<forall>task \<in> set (tasks st). trim (task_text task) \<noteq> []"
  shows "\<forall>task \<in> set (tasks (addTask uuid now str prio due st)). trim (task_text task) \<noteq> []"
  using assms by (auto simp: addTask_def Let_def trim_idem)

lemma toggleTask_keeps_nonblank:
  assumes "\<forall>task \<in> set (tasks st). trim (task_text task) \<noteq> []"
  shows "\<forall>task \<in> set (tasks (toggleTask i st)). trim (task_text task) \<noteq> []"
  using assms by (auto simp: toggleTask_def)

lemma deleteTask_keeps_nonblank:
  assumes "\<forall>task \<in> set (tasks st). trim (task_text task) \<noteq> []"
  shows "\<forall>task \<in> set (tasks (deleteTask i st)). trim (task_text task) \<noteq> []"
  using assms by (auto simp: deleteTask_def)

text \<open>
  C3. In a collection of tasks with non-blank text, for every input whose
  trimmed, case-folded text is that of a task of the collection, \<open>addTask\<close> leaves
  the collection unchanged and sets a notification; unless the input is one of the
  two reserved commands, nothing but the notification changes and it is the
  duplicate notice.
\<close>

theorem addTask_rejects_duplicate:
  assumes "\<forall>task \<in> set (tasks st). trim (task_text task) \<noteq> []"
    and "\<exists>task \<in> set (tasks st). toLowerCase (trim (task_text task)) = toLowerCase (trim str)"
  shows "tasks (addTask uuid now str prio due st) = tasks st \<and>
         notification (addTask uuid now str prio due st) \<noteq> None \<and>
         (toLowerCase (trim str) \<noteq> ''admin'' \<and> toLowerCase (trim str) \<noteq> ''unadmin'' \<longrightarrow>
            addTask uuid now str prio due st = st\<lparr>notification := Some DuplicateTask\<rparr>)"
proof -
  from assms obtain task where "task \<in> set (tasks st)"
    and eq: "toLowerCase (trim (task_text task)) = toLowerCase (trim str)"
    and "trim (task_text task) \<noteq> []"
    by blast
  then have "toLowerCase (trim str) \<noteq> []"
    by (simp add: toLowerCase_Nil_iff flip: eq)
  then have nonblank: "trim str \<noteq> []"
    by (simp add: toLowerCase_Nil_iff)
  show ?thesis
  proof (intro conjI impI)
    show "tasks (addTask uuid now str prio due st) = tasks st"
      using assms(2) by (rule addTask_keeps_tasks_on_duplicate)
    show "notification (addTask uuid now str prio due st) \<noteq> None"
      using nonblank assms(2) by (rule addTask_notifies_nonblank_duplicate)
    show "addTask uuid now str prio due st = st\<lparr>notification := Some DuplicateTask\<rparr>"
      if "toLowerCase (trim str) \<noteq> ''admin'' \<and> toLowerCase (trim str) \<noteq> ''unadmin''"
      using nonblank assms(2) that by (simp add: addTask_duplicate)
  qed
qed

lemma trim_ex3: "trim ''  MILK '' = ''MILK''"
  by code_simp

lemma lower_ex3: "toLowerCase ''MILK'' = ''milk''"
  by code_simp

lemma trim_ex4: "trim ''milk'' = ''milk''"
  by code_simp

lemma lower_ex4: "toLowerCase ''milk'' = ''milk''"
  by code_simp

lemma trim_ex5: "trim ''rent'' = ''rent''"
  by code_simp

lemma trim_ex6: "trim ''call'' = ''call''"
  by code_simp

lemma trim_ex7: "trim ''gym'' = ''gym''"
  by code_simp

theorem addTask_rejects_duplicate_witness:
  "list_all (\<lambda>task. trim (task_text task) \<noteq> []) (tasks exApp) \<and>
   exMilk \<in> set (tasks exApp) \<and>
   toLowerCase (trim (task_text exMilk)) = toLowerCase (trim ''  MILK '') \<and>
   addTask ''u'' 9 ''  MILK '' High None exApp = exApp\<lparr>notification := Some DuplicateTask\<rparr>"
  using addTask_rejects_duplicate [of exApp "''  MILK ''" "''u''" 9 High None]
  by (simp add: trim_ex3 lower_ex3 trim_ex4 lower_ex4 trim_ex5 trim_ex6 trim_ex7)

section \<open>Loading malformed data\<close>

text \<open>
  C7, as stated, fails for a stored empty string: \<open>JSON.parse\<close> throws on it, but
  the initialiser parses a stored value only if it is truthy, so for the empty
  string nothing is thrown, caught or logged. The collection is empty all the
  same.
\<close>

theorem loadTasks_empty_string_counterexample:
  "(\<lambda>s. if s = ''[]'' then Inr [] else Inl ''SyntaxError'') '''' =
     (Inl ''SyntaxError'' :: string + Task list) \<and>
   loadTasks (Inr (Some '''')) (\<lambda>s. if s = ''[]'' then Inr [] else Inl ''SyntaxError'') =
     ([], [])"
  by (simp add: loadTasks_def loadTasksTry_def)

text \<open>
  C7, amended. The initialiser always returns a collection and a list of logged
  errors. When the stored string is not empty and \<open>JSON.parse\<close> throws on it, or
  \<open>getItem\<close> itself throws, the thrown error is the one entry of the log and the
  collection is empty. For a stored empty string, and when nothing is stored, the
  collection is empty and nothing is logged. In every case either nothing was
  logged or the collection is empty.
\<close>

theorem loadTasks_malformed:
  "(s \<noteq> [] \<and> JSON_parse s = Inl e \<longrightarrow> loadTasks (Inr (Some s)) JSON_parse = ([], [e])) \<and>
   loadTasks (Inl e) JSON_parse = ([], [e]) \<and>
   loadTasks (Inr (Some [])) JSON_parse = ([], []) \<and>
   loadTasks (Inr None) JSON_parse = ([], []) \<and>
   (snd (loadTasks getItem JSON_parse) = [] \<or>
      fst (loadTasks getItem JSON_parse) = [] \<and> length (snd (loadTasks getItem JSON_parse)) = 1)"
  by (auto simp: loadTasks_def loadTasksTry_def split: sum.splits option.splits)

theorem loadTasks_malformed_witness:
  "''{broken'' \<noteq> [] \<and>
   (\<lambda>s. if s = ''[]'' then Inr [] else Inl ''SyntaxError'') ''{broken'' = Inl ''SyntaxError'' \<and>
   loadTasks (Inr (Some ''{broken'')) (\<lambda>s. if s = ''[]'' then Inr [] else Inl ''SyntaxError'') =
     ([], [''SyntaxError'']) \<and>
   loadTasks (Inr (Some ''[]'')) (\<lambda>s. if s = ''[]'' then Inr [] else Inl ''SyntaxError'') =
     ([], [])"
  using loadTasks_malformed [of "''{broken''" "\<lambda>s. if s = ''[]'' then Inr [] else Inl ''SyntaxError''"
      "''SyntaxError''" "Inr (Some ''[]'')"]
  by (simp add: loadTasks_def loadTasksTry_def)

section \<open>The sort\<close>

lemma mset_insertSorted: "mset (insertSorted cmp x ys) = add_mset x (mset ys)"
  by (induction ys) simp_all

lemma mset_arraySort: "mset (arraySort cmp xs) = mset xs"
  by (induction xs) (simp_all add: arraySort_def mset_insertSorted)

lemma set_arraySort: "set (arraySort cmp xs) = set xs"
  using mset_arraySort [of cmp xs] by (metis set_mset_mset)

lemma length_arraySort: "length (arraySort cmp xs) = length xs"
  using mset_arraySort [of cmp xs] by (metis size_mset)

lemma set_insertSorted: "set (insertSorted cmp x ys) = insert x (set ys)"
  using mset_insertSorted [of cmp x ys] by (metis set_mset_add_mset_insert set_mset_mset)

lemma sorted_insertSorted:
  assumes trans: "\<And>a b c. cmp a b \<le> 0 \<Longrightarrow> cmp b c \<le> 0 \<Longrightarrow> cmp a c \<le> 0"
    and total: "\<And>a b. cmp a b \<le> 0 \<or> cmp b a \<le> 0"
    and "sorted_wrt (\<lambda>a b. cmp a b \<le> 0) ys"
  shows "sorted_wrt (\<lambda>a b. cmp a b \<le> 0) (insertSorted cmp x ys)"
  using assms(3)
proof (induction ys)
  case Nil
  then show ?case by simp
next
  case (Cons y ys)
  show ?case
  proof (cases "cmp x y \<le> 0")
    case True
    then have "\<forall>z \<in> set ys. cmp x z \<le> 0"
      using Cons.prems trans by auto
    with True Cons.prems show ?thesis by simp
  next
    case False
    then have "cmp y x \<le> 0"
      using total [of x y] by simp
    with False Cons show ?thesis
      by (simp add: set_insertSorted)
  qed
qed

lemma sorted_arraySort:
  assumes trans: "\<And>a b c. cmp a b \<le> 0 \<Longrightarrow> cmp b c \<le> 0 \<Longrightarrow> cmp a c \<le> 0"
    and total: "\<And>a b. cmp a b \<le> 0 \<or> cmp b a \<le> 0"
  shows "sorted_wrt (\<lambda>a b. cmp a b \<le> 0) (arraySort cmp xs)"
proof (induction xs)
  case Nil
  then show ?case by (simp add: arraySort_def)
next
  case (Cons x xs)
  have "sorted_wrt (\<lambda>a b. cmp a b \<le> 0) (insertSorted cmp x (arraySort cmp xs))"
    using trans total Cons.IH by (rule sorted_insertSorted)
  then show ?case by (simp add: arraySort_def)
qed

text \<open>Stability: elements that compare equal keep their order.\<close>

lemma filter_insertSorted:
  assumes "\<And>y. P x \<Longrightarrow> y \<in> set ys \<Longrightarrow> P y \<Longrightarrow> cmp x y \<le> 0"
  shows "filter P (insertSorted cmp x ys) = (if P x then x # filter P ys else filter P ys)"
  using assms
proof (induction ys)
  case Nil
  then show ?case by simp
next
  case (Cons y ys)
  show ?case
  proof (cases "cmp x y \<le> 0")
    case True
    then show ?thesis by simp
  next
    case False
    then have "\<not> (P x \<and> P y)"
      using Cons.prems [of y] by auto
    moreover have "filter P (insertSorted cmp x ys) = (if P x then x # filter P ys else filter P ys)"
      using Cons.prems by (intro Cons.IH) auto
    ultimately show ?thesis
      using False by auto
  qed
qed

lemma filter_arraySort:
  assumes "\<And>x y. P x \<Longrightarrow> P y \<Longrightarrow> cmp x y \<le> 0"
  shows "filter P (arraySort cmp xs) = filter P xs"
proof (induction xs)
  case Nil
  then show ?case by (simp add: arraySort_def)
next
  case (Cons x xs)
  have "filter P (insertSorted cmp x (arraySort cmp xs)) =
        (if P x then x # filter P (arraySort cmp xs) else filter P (arraySort cmp xs))"
    using assms by (intro filter_insertSorted) auto
  with Cons.IH show ?case by (simp add: arraySort_def)
qed

section \<open>Sort order of sortedTasks\<close>

lemma priorityOrder_inj: "priorityOrder p = priorityOrder q \<longleftrightarrow> p = q"
  by (cases p; cases q) (simp_all add: priorityOrder_def)

lemma compareTasks_le_iff:
  "compareTasks a b \<le> 0 \<longleftrightarrow>
     priorityOrder (priority a) < priorityOrder (priority b) \<or>
     priorityOrder (priority a) = priorityOrder (priority b) \<and> createdAt b \<le> createdAt a"
  by (auto simp: compareTasks_def Let_def)

lemma compareTasks_trans:
  "compareTasks a b \<le> 0 \<Longrightarrow> compareTasks b c \<le> 0 \<Longrightarrow> compareTasks a c \<le> 0"
  unfolding compareTasks_le_iff by auto

lemma compareTasks_total: "compareTasks a b \<le> 0 \<or> compareTasks b a \<le> 0"
  unfolding compareTasks_le_iff by auto

lemma sorted_sortedTasks: "sorted_wrt (\<lambda>a b. compareTasks a b \<le> 0) (sortedTasks ts)"
  unfolding sortedTasks_def
proof (rule sorted_arraySort)
  show "compareTasks a b \<le> 0 \<Longrightarrow> compareTasks b c \<le> 0 \<Longrightarrow> compareTasks a c \<le> 0" for a b c
    by (rule compareTasks_trans)
  show "compareTasks a b \<le> 0 \<or> compareTasks b a \<le> 0" for a b
    by (rule compareTasks_total)
qed

lemma stable_sortedTasks:
  "filter (\<lambda>t. priority t = p \<and> createdAt t = c) (sortedTasks ts) =
   filter (\<lambda>t. priority t = p \<and> createdAt t = c) ts"
  unfolding sortedTasks_def
  by (rule filter_arraySort) (simp add: compareTasks_le_iff)

section \<open>The partition\<close>

lemma partitionLoop_filter:
  "partitionLoop ov xs (td, od) = (td @ filter (\<lambda>t. \<not> ov t) xs, od @ filter ov xs)"
  by (induction xs arbitrary: td od) simp_all

lemma todayTasks_filter:
  "todayTasks newDate currentTime ts =
     filter (\<lambda>t. \<not> isOverdue newDate currentTime t) (sortedTasks ts)"
  by (simp add: todayTasks_def partitionTasks_def partitionLoop_filter)

lemma overdueTasks_filter:
  "overdueTasks newDate currentTime ts =
     arraySort (compareOverdue newDate) (filter (isOverdue newDate currentTime) (sortedTasks ts))"
  by (simp add: overdueTasks_def partitionTasks_def partitionLoop_filter)

lemma set_sortedTasks: "set (sortedTasks ts) = set ts"
  by (simp add: sortedTasks_def set_arraySort)

lemma mset_sortedTasks: "mset (sortedTasks ts) = mset ts"
  by (simp add: sortedTasks_def mset_arraySort)

lemma set_todayTasks:
  "set (todayTasks newDate currentTime ts) = {t \<in> set ts. \<not> isOverdue newDate currentTime t}"
  by (simp add: todayTasks_filter set_sortedTasks)

lemma set_overdueTasks:
  "set (overdueTasks newDate currentTime ts) = {t \<in> set ts. isOverdue newDate currentTime t}"
  by (simp add: overdueTasks_filter set_arraySort set_sortedTasks)

lemma isOverdue_iff:
  "isOverdue newDate currentTime t \<longleftrightarrow>
     \<not> completed t \<and>
     (\<exists>d ms. dueDate t = Some d \<and> d \<noteq> [] \<and> newDate d = Some ms \<and> ms < currentTime)"
  by (auto simp: isOverdue_def split: option.splits)

section \<open>Order, classification and partition of the derived views\<close>

text \<open>
  C4. \<open>sortedTasks\<close> is a permutation of the collection in ascending order of
  priority rank (high 1, medium 2, low 3), tasks of equal rank in descending order
  of creation time, and tasks equal in both keep their order. The upcoming list
  is \<open>sortedTasks\<close> without the overdue tasks, in the same order.
\<close>

theorem sortedTasks_order:
  "mset (sortedTasks ts) = mset ts \<and>
   sorted_wrt
     (\<lambda>a b. priorityOrder (priority a) < priorityOrder (priority b) \<or>
        priorityOrder (priority a) = priorityOrder (priority b) \<and> createdAt b \<le> createdAt a)
     (sortedTasks ts) \<and>
   filter (\<lambda>t. priority t = p \<and> createdAt t = c) (sortedTasks ts) =
     filter (\<lambda>t. priority t = p \<and> createdAt t = c) ts \<and>
   priorityOrder High = 1 \<and> priorityOrder Medium = 2 \<and> priorityOrder Low = 3 \<and>
   todayTasks newDate currentTime ts =
     filter (\<lambda>t. \<not> isOverdue newDate currentTime t) (sortedTasks ts)"
proof -
  have "sorted_wrt
     (\<lambda>a b. priorityOrder (priority a) < priorityOrder (priority b) \<or>
        priorityOrder (priority a) = priorityOrder (priority b) \<and> createdAt b \<le> createdAt a)
     (sortedTasks ts)"
    using sorted_sortedTasks [of ts] by (simp add: compareTasks_le_iff)
  then show ?thesis
    by (simp add: mset_sortedTasks stable_sortedTasks todayTasks_filter priorityOrder_def)
qed

theorem sortedTasks_order_witness:
  "sortedTasks [exMilk, exRent, exCall, exGym] = [exGym, exRent, exCall, exMilk] \<and>
   map priority (sortedTasks [exMilk, exRent, exCall, exGym]) = [High, High, Medium, Low] \<and>
   map createdAt (sortedTasks [exMilk, exRent, exCall, exGym]) = [4, 2, 3, 1] \<and>
   mset (sortedTasks [exMilk, exRent, exCall, exGym]) = mset [exMilk, exRent, exCall, exGym]"
  using sortedTasks_order [of "[exMilk, exRent, exCall, exGym]" High 4 exDate exNow]
  by (simp add: sortedTasks_def arraySort_def compareTasks_def priorityOrder_def)

text \<open>
  C1. A task is in the overdue list exactly when it is a task of the collection
  that is not completed and has a non-empty due date that parses to a time
  strictly before the current time; it is in the upcoming list exactly when it is
  a task of the collection for which this fails. A completed task and a task
  without due date are never in the overdue list.
\<close>

theorem overdue_classification:
  "(t \<in> set (overdueTasks newDate currentTime ts) \<longleftrightarrow>
      t \<in> set ts \<and> \<not> completed t \<and>
      (\<exists>d ms. dueDate t = Some d \<and> d \<noteq> [] \<and> newDate d = Some ms \<and> ms < currentTime)) \<and>
   (t \<in> set (todayTasks newDate currentTime ts) \<longleftrightarrow>
      t \<in> set ts \<and>
      \<not> (\<not> completed t \<and>
         (\<exists>d ms. dueDate t = Some d \<and> d \<noteq> [] \<and> newDate d = Some ms \<and> ms < currentTime))) \<and>
   (completed t \<longrightarrow> t \<notin> set (overdueTasks newDate currentTime ts)) \<and>
   (dueDate t = None \<longrightarrow> t \<notin> set (overdueTasks newDate currentTime ts))"
  unfolding set_overdueTasks set_todayTasks isOverdue_iff by auto

theorem overdue_classification_witness:
  "overdueTasks exDate exNow [exMilk, exRent, exCall, exGym] = [exRent] \<and>
   todayTasks exDate exNow [exMilk, exRent, exCall, exGym] = [exGym, exCall, exMilk] \<and>
   completed exCall \<and> exCall \<notin> set (overdueTasks exDate exNow [exMilk, exRent, exCall, exGym]) \<and>
   dueDate exMilk = None \<and> exMilk \<notin> set (overdueTasks exDate exNow [exMilk, exRent, exCall, exGym]) \<and>
   exRent \<notin> set (overdueTasks exDate 1705276800000 [exMilk, exRent, exCall, exGym])"
proof -
  have s: "sortedTasks [exMilk, exRent, exCall, exGym] = [exGym, exRent, exCall, exMilk]"
    by (simp add: sortedTasks_def arraySort_def compareTasks_def priorityOrder_def)
  have "overdueTasks exDate exNow [exMilk, exRent, exCall, exGym] = [exRent]"
    by (simp add: overdueTasks_filter s isOverdue_def arraySort_def)
  moreover have "todayTasks exDate exNow [exMilk, exRent, exCall, exGym] = [exGym, exCall, exMilk]"
    by (simp add: todayTasks_filter s isOverdue_def)
  ultimately show ?thesis
    using overdue_classification [of exCall exDate exNow "[exMilk, exRent, exCall, exGym]"]
      overdue_classification [of exMilk exDate exNow "[exMilk, exRent, exCall, exGym]"]
      overdue_classification [of exRent exDate 1705276800000 "[exMilk, exRent, exCall, exGym]"]
    by simp
qed

text \<open>
  C8. The upcoming list and the overdue list together hold exactly the tasks of
  the collection, each as often as the collection does, and no task is in both.
\<close>

theorem today_overdue_partition:
  "mset (todayTasks newDate currentTime ts) + mset (overdueTasks newDate currentTime ts) = mset ts \<and>
   set (todayTasks newDate currentTime ts) \<inter> set (overdueTasks newDate currentTime ts) = {} \<and>
   length (todayTasks newDate currentTime ts) + length (overdueTasks newDate currentTime ts) =
     length ts"
proof -
  have m: "mset (todayTasks newDate currentTime ts) + mset (overdueTasks newDate currentTime ts) =
        mset ts"
    by (simp add: todayTasks_filter overdueTasks_filter mset_arraySort mset_sortedTasks)
  have "size (mset (todayTasks newDate currentTime ts) + mset (overdueTasks newDate currentTime ts)) =
        size (mset ts)"
    by (simp only: m)
  then have "length (todayTasks newDate currentTime ts) + length (overdueTasks newDate currentTime ts) =
        length ts"
    by simp
  moreover have "set (todayTasks newDate currentTime ts) \<inter> set (overdueTasks newDate currentTime ts) = {}"
    by (auto simp: set_todayTasks set_overdueTasks)
  ultimately show ?thesis
    using m by simp
qed

theorem today_overdue_partition_witness:
  "mset [exGym, exCall, exMilk] + mset [exRent] = mset [exMilk, exRent, exCall, exGym] \<and>
   todayTasks exDate exNow [exMilk, exRent, exCall, exGym] = [exGym, exCall, exMilk] \<and>
   overdueTasks exDate exNow [exMilk, exRent, exCall, exGym] = [exRent]"
proof -
  have s: "sortedTasks [exMilk, exRent, exCall, exGym] = [exGym, exRent, exCall, exMilk]"
    by (simp add: sortedTasks_def arraySort_def compareTasks_def priorityOrder_def)
  have o: "overdueTasks exDate exNow [exMilk, exRent, exCall, exGym] = [exRent]"
    by (simp add: overdueTasks_filter s isOverdue_def arraySort_def)
  have t: "todayTasks exDate exNow [exMilk, exRent, exCall, exGym] = [exGym, exCall, exMilk]"
    by (simp add: todayTasks_filter s isOverdue_def)
  show ?thesis
    using today_overdue_partition [of exDate exNow "[exMilk, exRent, exCall, exGym]"]
    by (simp add: o t)
qed

section \<open>Empty due date\<close>

lemma addTask_tasks_cases:
  "tasks (addTask uuid now str prio due st) = tasks st \<or>
   tasks (addTask uuid now str prio due st) =
     \<lparr>task_id = uuid, task_text = trim str, completed = False, createdAt = now, priority = prio,
       dueDate = (case due of None \<Rightarrow> None | Some d \<Rightarrow> if d = [] then None else Some d)\<rparr>
     # tasks st"
  by (simp add: addTask_def Let_def)

text \<open>
  C10. When \<open>addTask\<close> is called with the empty string as due date and creates a
  task, the new task is the head of the collection and has no due date; at every
  current time and for every date parser it is not overdue, so it is in the
  upcoming list and not in the overdue list.
\<close>

theorem addTask_empty_dueDate:
  assumes "tasks (addTask uuid now str prio (Some []) st) \<noteq> tasks st"
  shows "\<exists>newTask. tasks (addTask uuid now str prio (Some []) st) = newTask # tasks st \<and>
           dueDate newTask = None \<and>
           \<not> isOverdue newDate currentTime newTask \<and>
           newTask \<notin> set (overdueTasks newDate currentTime
                            (tasks (addTask uuid now str prio (Some []) st))) \<and>
           newTask \<in> set (todayTasks newDate currentTime
                            (tasks (addTask uuid now str prio (Some []) st)))"
proof -
  let ?new = "\<lparr>task_id = uuid, task_text = trim str, completed = False, createdAt = now,
                priority = prio, dueDate = None\<rparr>"
  have eq: "tasks (addTask uuid now str prio (Some []) st) = ?new # tasks st"
    using assms addTask_tasks_cases [of uuid now str prio "Some []" st] by simp
  have no: "\<not> isOverdue newDate currentTime ?new"
    by (simp add: isOverdue_def)
  have "?new \<notin> set (overdueTasks newDate currentTime (?new # tasks st))"
    using no by (simp add: set_overdueTasks)
  moreover have "?new \<in> set (todayTasks newDate currentTime (?new # tasks st))"
    using no by (simp add: set_todayTasks)
  ultimately show ?thesis
    using eq no by simp
qed

theorem addTask_empty_dueDate_witness:
  "tasks (addTask ''e'' 5 '' walk '' Low (Some []) exApp) \<noteq> tasks exApp \<and>
   tasks (addTask ''e'' 5 '' walk '' Low (Some []) exApp) =
     \<lparr>task_id = ''e'', task_text = ''walk'', completed = False, createdAt = 5, priority = Low,
       dueDate = None\<rparr> # tasks exApp"
proof -
  have ev: "addTask ''e'' 5 '' walk '' Low (Some []) exApp =
      exApp\<lparr>tasks := \<lparr>task_id = ''e'', task_text = ''walk'', completed = False, createdAt = 5,
        priority = Low, dueDate = None\<rparr> # tasks exApp\<rparr>"
    by code_simp
  show ?thesis
    using addTask_empty_dueDate [of "''e''" 5 "'' walk ''" Low exApp exDate exNow]
    by (simp add: ev)
qed

section \<open>Rounding error of binary64 arithmetic\<close>

lemma exponent_le:
  assumes "0 < x"
  shows "power_int 2 (exponent x) \<le> x"
proof (cases "1 \<le> x")
  case True
  then have pos: "0 < \<lfloor>x\<rfloor>"
    by linarith
  then have ge: "0 \<le> bitlen \<lfloor>x\<rfloor> - 1"
    by (simp add: bitlen_alt_def)
  have "(2::int) ^ nat (bitlen \<lfloor>x\<rfloor> - 1) \<le> \<lfloor>x\<rfloor>"
    using bitlen_bounds [OF pos] by simp
  then have "(of_int ((2::int) ^ nat (bitlen \<lfloor>x\<rfloor> - 1)) :: rat) \<le> of_int \<lfloor>x\<rfloor>"
    by (simp only: of_int_le_iff)
  also have "\<dots> \<le> x"
    by simp
  finally have "(2::rat) ^ nat (bitlen \<lfloor>x\<rfloor> - 1) \<le> x"
    by simp
  with True ge show ?thesis
    by (simp add: exponent_def power_int_def)
next
  case False
  let ?m = "\<lceil>1 / x\<rceil> - 1"
  from False assms have "1 < 1 / x"
    by (simp add: field_simps)
  then have pos: "0 < ?m"
    by linarith
  have "1 / x \<le> of_int \<lceil>1 / x\<rceil>"
    by (rule le_of_int_ceiling)
  also have "\<lceil>1 / x\<rceil> \<le> 2 ^ nat (bitlen ?m)"
    using bitlen_bounds [OF pos] by simp
  finally have "1 / x \<le> 2 ^ nat (bitlen ?m)"
    by simp
  with assms have "1 / 2 ^ nat (bitlen ?m) \<le> x"
    by (simp add: field_simps)
  moreover have "power_int (2::rat) (- bitlen ?m) = 1 / 2 ^ nat (bitlen ?m)"
    using bitlen_nonneg [of ?m] by (simp add: power_int_def field_simps)
  ultimately show ?thesis
    using False by (simp add: exponent_def)
qed

lemma exponent_less:
  assumes "0 < x"
  shows "x < power_int 2 (exponent x + 1)"
proof (cases "1 \<le> x")
  case True
  then have pos: "0 < \<lfloor>x\<rfloor>"
    by linarith
  then have ge: "0 \<le> bitlen \<lfloor>x\<rfloor> - 1"
    by (simp add: bitlen_alt_def)
  have "\<lfloor>x\<rfloor> + 1 \<le> 2 ^ nat (bitlen \<lfloor>x\<rfloor>)"
    using bitlen_bounds [OF pos] by simp
  then have "(of_int (\<lfloor>x\<rfloor> + 1) :: rat) \<le> of_int (2 ^ nat (bitlen \<lfloor>x\<rfloor>))"
    by (simp only: of_int_le_iff)
  moreover have "x < of_int (\<lfloor>x\<rfloor> + 1)"
    by simp linarith
  ultimately have "x < 2 ^ nat (bitlen \<lfloor>x\<rfloor>)"
    by simp
  with True ge show ?thesis
    by (simp add: exponent_def power_int_def)
next
  case False
  let ?m = "\<lceil>1 / x\<rceil> - 1"
  from False assms have "1 < 1 / x"
    by (simp add: field_simps)
  then have pos: "0 < ?m"
    by linarith
  then have ge: "1 \<le> bitlen ?m"
    by (simp add: bitlen_alt_def)
  have "(2::int) ^ nat (bitlen ?m - 1) \<le> ?m"
    using bitlen_bounds [OF pos] by simp
  then have "(of_int ((2::int) ^ nat (bitlen ?m - 1)) :: rat) \<le> of_int ?m"
    by (simp only: of_int_le_iff)
  moreover have "of_int ?m < 1 / x"
    by simp linarith
  ultimately have "2 ^ nat (bitlen ?m - 1) < 1 / x"
    by simp
  with assms have "x < 1 / 2 ^ nat (bitlen ?m - 1)"
    by (simp add: field_simps)
  moreover have "power_int (2::rat) (- bitlen ?m + 1) = 1 / 2 ^ nat (bitlen ?m - 1)"
  proof -
    have "- bitlen ?m + 1 = - int (nat (bitlen ?m - 1))"
      using ge by simp
    then show ?thesis
      by (simp only: power_int_minus power_int_of_nat) (simp add: field_simps)
  qed
  ultimately show ?thesis
    using False by (simp add: exponent_def)
qed

lemma roundTiesToEven_error: "\<bar>of_int (roundTiesToEven y) - y\<bar> \<le> 1 / 2"
proof -
  have "of_int \<lfloor>y\<rfloor> \<le> y" "y < of_int \<lfloor>y\<rfloor> + 1"
    by linarith+
  then show ?thesis
    by (auto simp: roundTiesToEven_def Let_def)
qed

lemma toBinary64_error:
  assumes "0 < x"
  shows "\<bar>toBinary64 x - x\<bar> \<le> x / 2 ^ 53"
proof -
  let ?u = "power_int (2::rat) (exponent x - 52)"
  have upos: "0 < ?u"
    by simp
  have fl: "toBinary64 x = of_int (roundTiesToEven (x / ?u)) * ?u"
    using assms by (simp add: toBinary64_def Let_def)
  have "toBinary64 x - x = (of_int (roundTiesToEven (x / ?u)) - x / ?u) * ?u"
    using upos by (simp add: fl field_simps)
  then have "\<bar>toBinary64 x - x\<bar> = \<bar>of_int (roundTiesToEven (x / ?u)) - x / ?u\<bar> * ?u"
    using upos by (simp add: abs_mult)
  also have "\<dots> \<le> 1 / 2 * ?u"
    using roundTiesToEven_error [of "x / ?u"] upos by (intro mult_right_mono) simp_all
  also have "1 / 2 * ?u = power_int 2 (exponent x) / 2 ^ 53"
    by (simp add: power_int_diff)
  also have "\<dots> \<le> x / 2 ^ 53"
    using exponent_le [OF assms] by (simp add: divide_right_mono)
  finally show ?thesis .
qed

lemma near_positive:
  fixes a q e :: rat
  assumes "\<bar>a - q\<bar> \<le> e" "e \<le> q / 2" "0 < q"
  shows "0 < a" and "a \<le> 2 * q"
  using assms by linarith+

lemma two_step_error:
  fixes a b q e1 e2 :: rat
  assumes "\<bar>a - q\<bar> \<le> e1" "\<bar>b - a * 100\<bar> \<le> e2"
  shows "\<bar>b - 100 * q\<bar> \<le> e2 + 100 * e1"
  using assms by linarith

lemma percentage_close:
  fixes c n :: nat
  assumes "0 < c" "c \<le> n"
  shows "\<bar>num_mul (num_div (of_nat c) (of_nat n)) 100 - 100 * of_nat c / of_nat n\<bar> \<le> 300 / 2 ^ 53"
proof -
  let ?q = "of_nat c / of_nat n :: rat"
  let ?a = "toBinary64 ?q"
  let ?b = "toBinary64 (?a * 100)"
  from assms have npos: "0 < n"
    by simp
  have qpos: "0 < ?q"
    using assms npos by simp
  have qle: "?q \<le> 1"
    using assms npos by simp
  have ea: "\<bar>?a - ?q\<bar> \<le> ?q / 2 ^ 53"
    using qpos by (rule toBinary64_error)
  have "?q / 2 ^ 53 \<le> ?q / 2"
    using qpos by (intro divide_left_mono) simp_all
  with ea have apos: "0 < ?a" and a2: "?a \<le> 2 * ?q"
    using qpos by (rule near_positive)+
  have eb: "\<bar>?b - ?a * 100\<bar> \<le> ?a * 100 / 2 ^ 53"
    using apos by (intro toBinary64_error) simp
  have "?a * 100 / 2 ^ 53 \<le> 200 * ?q / 2 ^ 53"
    using a2 by (simp add: divide_right_mono)
  with eb have eb': "\<bar>?b - ?a * 100\<bar> \<le> 200 * ?q / 2 ^ 53"
    by linarith
  have "\<bar>?b - 100 * ?q\<bar> \<le> 200 * ?q / 2 ^ 53 + 100 * (?q / 2 ^ 53)"
    using ea eb' by (rule two_step_error)
  also have "\<dots> = 300 * ?q / 2 ^ 53"
    by simp
  also have "\<dots> \<le> 300 / 2 ^ 53"
    using qle by (simp add: divide_right_mono)
  finally show ?thesis
    by (simp add: num_mul_def num_div_def)
qed

lemma percentage_nearest:
  fixes c n :: nat
  assumes "0 < n" "c \<le> n" "n < 2 ^ 32"
  shows "\<bar>of_int (Math_round (num_mul (num_div (of_nat c) (of_nat n)) 100)) -
           (100 * of_nat c / of_nat n :: rat)\<bar> \<le> 1 / 2"
proof (cases "c = 0")
  case True
  have "\<lfloor>1 / 2 :: rat\<rfloor> = 0"
    by (simp add: floor_eq_iff)
  with True show ?thesis
    by (simp add: num_mul_def num_div_def toBinary64_def Math_round_def)
next
  case False
  let ?b = "num_mul (num_div (of_nat c) (of_nat n)) 100"
  let ?v = "100 * of_nat c / of_nat n :: rat"
  let ?p = "Math_round ?b"
  have close: "\<bar>?b - ?v\<bar> \<le> 300 / 2 ^ 53"
    using False assms(2) by (intro percentage_close) simp_all
  have nr: "(of_nat n :: rat) < 2 ^ 32"
    using assms(3) by (metis of_nat_less_iff of_nat_numeral of_nat_power)
  have npos: "(0::rat) < of_nat n"
    using assms(1) by simp
  have "300 / 2 ^ 53 * (2 * of_nat n) < (300 / 2 ^ 53 * (2 * 2 ^ 32) :: rat)"
    using nr by (intro mult_strict_left_mono) simp_all
  also have "\<dots> < 1"
    by simp
  finally have small: "300 / 2 ^ 53 * (2 * of_nat n) < (1::rat)" .
  have eps: "(300 / 2 ^ 53 :: rat) < 1 / (2 * of_nat n)"
    using small npos by (simp add: field_simps)
  have p1: "of_int ?p \<le> ?b + 1 / 2" and p2: "?b + 1 / 2 < of_int ?p + 1"
    unfolding Math_round_def by linarith+
  have v: "?v * (2 * of_nat n) = of_int (200 * int c)"
    using npos by simp
  have lower: "of_int ?p - 1 / 2 \<le> ?v"
  proof (rule ccontr)
    assume "\<not> of_int ?p - 1 / 2 \<le> ?v"
    then have "?v * (2 * of_nat n) < (of_int ?p - 1 / 2) * (2 * of_nat n)"
      using npos by (intro mult_strict_right_mono) simp_all
    also have "(of_int ?p - 1 / 2) * (2 * of_nat n) = (of_int ((2 * ?p - 1) * int n) :: rat)"
      by (simp add: algebra_simps)
    finally have "200 * int c < (2 * ?p - 1) * int n"
      unfolding v by (simp only: of_int_less_iff)
    then have "200 * int c + 1 \<le> (2 * ?p - 1) * int n"
      by simp
    then have "(of_int (200 * int c + 1) :: rat) \<le> of_int ((2 * ?p - 1) * int n)"
      by (simp only: of_int_le_iff)
    then have "?v * (2 * of_nat n) + 1 \<le> (of_int ?p - 1 / 2) * (2 * of_nat n)"
      unfolding v by (simp add: algebra_simps)
    then have "?v + 1 / (2 * of_nat n) \<le> of_int ?p - 1 / 2"
      using npos by (simp add: field_simps)
    with eps close p1 show False
      by linarith
  qed
  have upper: "?v \<le> of_int ?p + 1 / 2"
  proof (rule ccontr)
    assume "\<not> ?v \<le> of_int ?p + 1 / 2"
    then have "(of_int ?p + 1 / 2) * (2 * of_nat n) < ?v * (2 * of_nat n)"
      using npos by (intro mult_strict_right_mono) simp_all
    moreover have "(of_int ?p + 1 / 2) * (2 * of_nat n) = (of_int ((2 * ?p + 1) * int n) :: rat)"
      by (simp add: algebra_simps)
    ultimately have "(of_int ((2 * ?p + 1) * int n) :: rat) < of_int (200 * int c)"
      unfolding v by simp
    then have "(2 * ?p + 1) * int n < 200 * int c"
      by (simp only: of_int_less_iff)
    then have "(2 * ?p + 1) * int n + 1 \<le> 200 * int c"
      by simp
    then have "(of_int ((2 * ?p + 1) * int n + 1) :: rat) \<le> of_int (200 * int c)"
      by (simp only: of_int_le_iff)
    then have "(of_int ?p + 1 / 2) * (2 * of_nat n) + 1 \<le> ?v * (2 * of_nat n)"
      unfolding v by (simp add: algebra_simps)
    then have "of_int ?p + 1 / 2 \<le> ?v - 1 / (2 * of_nat n)"
      using npos by (simp add: field_simps)
    with eps close p2 show False
      by linarith
  qed
  from lower upper show ?thesis
    by linarith
qed

lemma nearest_round:
  fixes v :: rat and p :: int
  assumes "\<bar>of_int p - v\<bar> \<le> 1 / 2"
  shows "p = round v \<or> p = round v - 1 \<and> of_int (round v) = v + 1 / 2"
proof (cases "v < of_int p + 1 / 2")
  case True
  with assms have "of_int p \<le> v + 1 / 2" "v + 1 / 2 < of_int p + 1"
    by linarith+
  then have "\<lfloor>v + 1 / 2\<rfloor> = p"
    by linarith
  then show ?thesis
    by (simp add: round_def)
next
  case False
  with assms have "v + 1 / 2 = of_int (p + 1)"
    by simp
  then have "\<lfloor>v + 1 / 2\<rfloor> = p + 1"
    by (simp only: floor_of_int)
  then show ?thesis
    using \<open>v + 1 / 2 = of_int (p + 1)\<close> by (simp add: round_def)
qed

section \<open>Value of the productivity percentage\<close>

lemma length_today_overdue:
  "length (todayTasks newDate currentTime ts) + length (overdueTasks newDate currentTime ts) =
     length ts"
proof -
  have "mset (todayTasks newDate currentTime ts) + mset (overdueTasks newDate currentTime ts) =
        mset ts"
    by (simp add: todayTasks_filter overdueTasks_filter mset_arraySort mset_sortedTasks)
  then have "size (mset (todayTasks newDate currentTime ts) +
                   mset (overdueTasks newDate currentTime ts)) = size (mset ts)"
    by (simp only:)
  then show ?thesis
    by simp
qed

lemma completed_today_le:
  "length (filter completed (todayTasks newDate currentTime ts)) \<le> length ts"
proof -
  have "length (filter completed (todayTasks newDate currentTime ts)) \<le>
        length (todayTasks newDate currentTime ts)"
    by (rule length_filter_le)
  also have "\<dots> \<le> length ts"
    using length_today_overdue [of newDate currentTime ts] by simp
  finally show ?thesis .
qed

lemma productivityPercentage_unfold:
  "productivityPercentage newDate currentTime ts =
     (if length ts = 0 then 100
      else Math_round (num_mul (num_div
             (of_nat (length (filter completed (todayTasks newDate currentTime ts))))
             (of_nat (length ts))) 100))"
  by (simp only: productivityPercentage_def Let_def length_append length_today_overdue)

lemma completed_today_count:
  "length (filter completed (todayTasks newDate currentTime ts)) = length (filter completed ts)"
proof -
  have "filter completed (todayTasks newDate currentTime ts) = filter completed (sortedTasks ts)"
    unfolding todayTasks_filter filter_filter
    by (rule filter_cong) (auto simp: isOverdue_def)
  then have "mset (filter completed (todayTasks newDate currentTime ts)) =
             filter_mset completed (mset ts)"
    by (simp add: mset_sortedTasks)
  then have "size (mset (filter completed (todayTasks newDate currentTime ts))) =
             size (mset (filter completed ts))"
    by simp
  then show ?thesis
    by (simp only: size_mset)
qed

text \<open>
  C2, as stated, fails at an exact half: with 23 completed tasks among 40 upcoming
  tasks and no overdue task, \<open>100 \<times> 23 / 40 = 57.5\<close> rounds to 58, but the code
  computes \<open>(23 / 40) * 100\<close> in binary64 arithmetic, which is just below 57.5, and
  \<open>Math.round\<close> gives 57.
\<close>

theorem productivityPercentage_half_counterexample:
  "length (todayTasks exDate exNow exForty) = 40 \<and>
   length (overdueTasks exDate exNow exForty) = 0 \<and>
   length (filter completed (todayTasks exDate exNow exForty)) = 23 \<and>
   round (100 * 23 / 40 :: rat) = 58 \<and>
   productivityPercentage exDate exNow exForty = 57"
proof -
  have n: "length exForty = 40"
    by simp
  have c: "length (filter completed exForty) = 23"
    by code_simp
  have o: "filter (isOverdue exDate exNow) (sortedTasks exForty) = []"
    by (auto simp: filter_empty_conv set_sortedTasks isOverdue_def)
  have ov: "length (overdueTasks exDate exNow exForty) = 0"
    by (simp only: overdueTasks_filter o length_arraySort list.size)
  have td: "length (todayTasks exDate exNow exForty) = 40"
    using length_today_overdue [of exDate exNow exForty] ov n by simp
  have r: "round (100 * 23 / 40 :: rat) = 58"
    by code_simp
  have m: "Math_round (num_mul (num_div 23 40) 100) = 57"
    by code_simp
  have ct: "length (filter completed (todayTasks exDate exNow exForty)) = 23"
    by (simp only: completed_today_count c)
  have p: "productivityPercentage exDate exNow exForty = 57"
    by (simp only: productivityPercentage_unfold ct n) (simp add: m)
  show ?thesis
    by (intro conjI) (rule td ov ct r p)+
qed

text \<open>
  C2, amended. For a collection of fewer than \<open>2^32\<close> tasks (the bound on the length
  of an array), with U upcoming and O overdue tasks: if \<open>U + O = 0\<close> the percentage
  is 100; otherwise it is an integer at distance at most 1/2 from
  \<open>100 \<times> (completed upcoming tasks) / (U + O)\<close>, so it is the rounded value of that
  quotient, except that where the quotient is exactly halfway between two integers
  it may also be the lower one.
\<close>

theorem productivityPercentage_nearest:
  assumes "length ts < 2 ^ 32"
  shows "(length (todayTasks newDate currentTime ts) + length (overdueTasks newDate currentTime ts) = 0 \<longrightarrow>
            productivityPercentage newDate currentTime ts = 100) \<and>
         (0 < length (todayTasks newDate currentTime ts) + length (overdueTasks newDate currentTime ts) \<longrightarrow>
            \<bar>of_int (productivityPercentage newDate currentTime ts) -
               (100 * of_nat (length (filter completed (todayTasks newDate currentTime ts))) /
                  of_nat (length (todayTasks newDate currentTime ts) +
                          length (overdueTasks newDate currentTime ts)) :: rat)\<bar> \<le> 1 / 2 \<and>
            (productivityPercentage newDate currentTime ts =
               round (100 * of_nat (length (filter completed (todayTasks newDate currentTime ts))) /
                  of_nat (length (todayTasks newDate currentTime ts) +
                          length (overdueTasks newDate currentTime ts)) :: rat) \<or>
             productivityPercentage newDate currentTime ts =
               round (100 * of_nat (length (filter completed (todayTasks newDate currentTime ts))) /
                  of_nat (length (todayTasks newDate currentTime ts) +
                          length (overdueTasks newDate currentTime ts)) :: rat) - 1 \<and>
             of_int (round (100 * of_nat (length (filter completed (todayTasks newDate currentTime ts))) /
                  of_nat (length (todayTasks newDate currentTime ts) +
                          length (overdueTasks newDate currentTime ts)) :: rat)) =
               (100 * of_nat (length (filter completed (todayTasks newDate currentTime ts))) /
                  of_nat (length (todayTasks newDate currentTime ts) +
                          length (overdueTasks newDate currentTime ts)) :: rat) + 1 / 2))"
proof -
  let ?c = "length (filter completed (todayTasks newDate currentTime ts))"
  let ?p = "productivityPercentage newDate currentTime ts"
  let ?v = "100 * of_nat ?c / of_nat (length ts) :: rat"
  have len: "length (todayTasks newDate currentTime ts) +
             length (overdueTasks newDate currentTime ts) = length ts"
    by (rule length_today_overdue)
  have empty: "?p = 100" if "length ts = 0"
    using that by (simp add: productivityPercentage_unfold)
  have near: "\<bar>of_int ?p - ?v\<bar> \<le> 1 / 2" if "0 < length ts"
  proof -
    have "?p = Math_round (num_mul (num_div (of_nat ?c) (of_nat (length ts))) 100)"
      using that by (simp add: productivityPercentage_unfold)
    then show ?thesis
      using percentage_nearest [OF that completed_today_le assms, of newDate currentTime]
      by simp
  qed
  have "?p = round ?v \<or> ?p = round ?v - 1 \<and> of_int (round ?v) = ?v + 1 / 2"
    if "0 < length ts"
    using near [OF that] by (rule nearest_round)
  with empty near show ?thesis
    unfolding len by blast
qed

theorem productivityPercentage_nearest_witness:
  "length [exMilk, exRent, exCall] < 2 ^ 32 \<and>
   todayTasks exDate exNow [exMilk, exRent, exCall] = [exCall, exMilk] \<and>
   overdueTasks exDate exNow [exMilk, exRent, exCall] = [exRent] \<and>
   filter completed (todayTasks exDate exNow [exMilk, exRent, exCall]) = [exCall] \<and>
   productivityPercentage exDate exNow [exMilk, exRent, exCall] = 33 \<and>
   round (100 * 1 / 3 :: rat) = 33 \<and>
   productivityPercentage exDate exNow [] = 100"
proof -
  have l: "length [exMilk, exRent, exCall] < 2 ^ 32"
    by simp
  have s: "sortedTasks [exMilk, exRent, exCall] = [exRent, exCall, exMilk]"
    by (simp add: sortedTasks_def arraySort_def compareTasks_def priorityOrder_def)
  have o: "overdueTasks exDate exNow [exMilk, exRent, exCall] = [exRent]"
    by (simp add: overdueTasks_filter s isOverdue_def arraySort_def)
  have t: "todayTasks exDate exNow [exMilk, exRent, exCall] = [exCall, exMilk]"
    by (simp add: todayTasks_filter s isOverdue_def)
  have f: "filter completed (todayTasks exDate exNow [exMilk, exRent, exCall]) = [exCall]"
    by (simp add: t)
  have m: "Math_round (num_mul (num_div 1 3) 100) = 33"
    by code_simp
  have r: "round (100 * 1 / 3 :: rat) = 33"
    by code_simp
  have p: "productivityPercentage exDate exNow [exMilk, exRent, exCall] = 33"
    by (simp add: productivityPercentage_unfold t m)
  have e: "productivityPercentage exDate exNow [] = 100"
    by (simp add: productivityPercentage_unfold)
  show ?thesis
    by (insert productivityPercentage_nearest [OF l, of exDate exNow], intro conjI)
      (rule l t o f p r e)+
qed

end
